theory Spec2Isabelle
  imports Main "HOL-Library.Sublist"
begin

section \<open>Package orphans: \<^verbatim>\<open>lib/package_orphans.c\<close>\<close>

text \<open>
  The file finds the installed packages that were installed automatically and that no
  other package depends on any more. It walks the array of package dictionaries of the
  registered packages database in reverse order, collects the orphans in a static
  queue, and moves the queue into the array it returns.
\<close>

subsection \<open>Property-list objects and package dictionaries\<close>

text \<open>
  The objects a dictionary key can hold, as far as this file looks at them: the
  \<^verbatim>\<open>requiredby\<close> object is tested with \<^verbatim>\<open>prop_object_type\<close> and, when it is an array,
  its elements are read as strings (\<^verbatim>\<open>prop_string_cstring_nocopy\<close>).
\<close>

datatype prop_object =
    Prop_array "string list"
  | Prop_bool bool
  | Prop_number int
  | Prop_string string

datatype prop_type_t =
    PROP_TYPE_ARRAY
  | PROP_TYPE_BOOL
  | PROP_TYPE_NUMBER
  | PROP_TYPE_STRING

fun prop_object_type :: "prop_object \<Rightarrow> prop_type_t" where
  "prop_object_type (Prop_array xs) = PROP_TYPE_ARRAY"
| "prop_object_type (Prop_bool b) = PROP_TYPE_BOOL"
| "prop_object_type (Prop_number n) = PROP_TYPE_NUMBER"
| "prop_object_type (Prop_string str) = PROP_TYPE_STRING"

text \<open>
  \<^verbatim>\<open>prop_array_count\<close> returns an \<^verbatim>\<open>unsigned int\<close>, and so are the counters
  \<^verbatim>\<open>cnt\<close> and \<^verbatim>\<open>ndep\<close> of \<^verbatim>\<open>find_orphan_pkg\<close>. \<^verbatim>\<open>ndep\<close> is incremented at most once
  for each element of the array, so it never passes \<^verbatim>\<open>cnt\<close> and nothing wraps: the
  counters are natural numbers here.
\<close>

fun prop_array_count :: "prop_object \<Rightarrow> nat" where
  "prop_array_count (Prop_array xs) = length xs"
| "prop_array_count obj = 0"

text \<open>
  Modelled from the spec: the enumeration \<^verbatim>\<open>pkg_state_t\<close> is declared in
  \<^verbatim>\<open>xbps_api.h\<close>, which is not among the sources. The spec speaks of an enumerated
  installation state of which only \<^verbatim>\<open>INSTALLED\<close> is told apart; every other state is
  \<open>Pkg_state_other\<close> with its number.
\<close>

datatype pkg_state_t =
    XBPS_PKG_STATE_INSTALLED
  | Pkg_state_other nat

text \<open>
  A package dictionary of the \<^verbatim>\<open>packages\<close> array, by the keys this file reads:
  \<^item> \<open>d_pkgname\<close>: the string under \<^verbatim>\<open>pkgname\<close> (a mandatory object of the
    dictionary);
  \<^item> \<open>d_automatic_install\<close>: the boolean under \<^verbatim>\<open>automatic-install\<close>, \<open>None\<close> when
    the key is absent or holds no boolean (\<^verbatim>\<open>prop_dictionary_get_bool\<close> then leaves
    the variable \<^verbatim>\<open>automatic\<close> at its initial value \<^verbatim>\<open>false\<close>);
  \<^item> \<open>d_state\<close>: what \<^verbatim>\<open>xbps_get_pkg_state_dictionary\<close> answers for the dictionary,
    its return value (0 for success) and the state it stores;
  \<^item> \<open>d_requiredby\<close>: the object under \<^verbatim>\<open>requiredby\<close>, \<open>None\<close> when the key is
    absent (\<^verbatim>\<open>prop_dictionary_get\<close> returns \<^verbatim>\<open>NULL\<close>).
\<close>

record prop_dictionary =
  d_pkgname :: string
  d_automatic_install :: "bool option"
  d_state :: "int \<times> pkg_state_t"
  d_requiredby :: "prop_object option"

text \<open>\<^verbatim>\<open>struct orphan_pkg\<close>, without the queue link: the queue is a list of these.\<close>

record orphan_pkg =
  dict :: prop_dictionary
  pkgname :: string

subsection \<open>The state the functions work on\<close>

text \<open>
  \<^item> \<open>orphan_list\<close>: the static queue \<^verbatim>\<open>orphan_list\<close>, head first;
  \<^item> \<open>regpkgdb\<close>: the \<^verbatim>\<open>packages\<close> array of the registered packages database in
    registration order, \<open>None\<close> when the database cannot be obtained (a database that is
    obtained has its \<^verbatim>\<open>packages\<close> array);
  \<^item> \<open>regpkgdb_refs\<close>: the references to the database handed out and not yet released;
  \<^item> \<open>errno\<close>: the C library's \<^verbatim>\<open>errno\<close>;
  \<^item> \<open>alloc_plan\<close>: the outcomes of the coming allocation requests, in order
    (\<open>True\<close>: the request succeeds); when the plan is used up every request succeeds;
  \<^item> \<open>copy_refs\<close>: the references held on the dictionary copies made by
    \<^verbatim>\<open>prop_dictionary_copy\<close> (property-list objects are reference counted: a copy
    is born with one reference, an array retains the objects added to it, and
    \<^verbatim>\<open>prop_object_release\<close> drops one reference).
\<close>

record xbps_state =
  orphan_list :: "orphan_pkg list"
  regpkgdb :: "prop_dictionary list option"
  regpkgdb_refs :: nat
  errno :: int
  alloc_plan :: "bool list"
  copy_refs :: nat

text \<open>
  The error numbers, with the values of \<^verbatim>\<open>errno.h\<close> on Linux; the properties below
  only need that they are not 0.
\<close>

definition EINVAL :: int where
  "EINVAL = 22"

definition ENOMEM :: int where
  "ENOMEM = 12"

text \<open>
  One allocation request (\<^verbatim>\<open>malloc\<close>, or an allocation inside the property-list
  library): it takes the next outcome of the plan, and a request that fails sets
  \<^verbatim>\<open>errno\<close> to \<^verbatim>\<open>ENOMEM\<close>.
\<close>

definition allocate :: "xbps_state \<Rightarrow> bool \<times> xbps_state" where
  "allocate s =
     (case alloc_plan s of
        [] \<Rightarrow> (True, s)
      | ok # plan \<Rightarrow>
          (ok, s\<lparr>alloc_plan := plan, errno := (if ok then errno s else ENOMEM)\<rparr>))"

text \<open>\<^verbatim>\<open>prop_array_iterator\<close>: the elements to iterate over, or \<^verbatim>\<open>NULL\<close>.\<close>

definition prop_array_iterator :: "prop_object \<Rightarrow> xbps_state \<Rightarrow> string list option \<times> xbps_state" where
  "prop_array_iterator reqby s =
     (case allocate s of
        (ok, s1) \<Rightarrow>
          (if ok then (case reqby of Prop_array xs \<Rightarrow> (Some xs, s1) | _ \<Rightarrow> (None, s1))
           else (None, s1)))"

text \<open>
  \<^verbatim>\<open>prop_array_create\<close>, \<^verbatim>\<open>prop_array_add\<close> and \<^verbatim>\<open>prop_object_release\<close> on the result
  array and the dictionary copies. The array is the list of the dictionaries added so
  far; adding one may need memory (the source checks the result of every call), and
  retains the dictionary: the source releases its own reference right after a
  successful \<^verbatim>\<open>prop_array_add\<close> (line 191) and returns the array with the copies in it.
  \<^verbatim>\<open>prop_object_release\<close> is only ever applied to a copy on which the caller holds a
  reference, so the subtraction on \<open>copy_refs\<close> does not truncate in a run that starts
  with as many references as the queue has entries.
\<close>

definition prop_array_create :: "xbps_state \<Rightarrow> prop_dictionary list option \<times> xbps_state" where
  "prop_array_create s =
     (case allocate s of (ok, s1) \<Rightarrow> (if ok then (Some [], s1) else (None, s1)))"

definition prop_array_add ::
  "prop_dictionary list \<Rightarrow> prop_dictionary \<Rightarrow> xbps_state \<Rightarrow> prop_dictionary list option \<times> xbps_state" where
  "prop_array_add array d s =
     (case allocate s of
        (ok, s1) \<Rightarrow>
          (if ok then (Some (array @ [d]), s1\<lparr>copy_refs := copy_refs s1 + 1\<rparr>)
           else (None, s1)))"

definition prop_object_release :: "prop_dictionary \<Rightarrow> xbps_state \<Rightarrow> xbps_state" where
  "prop_object_release d s = s\<lparr>copy_refs := copy_refs s - 1\<rparr>"

subsection \<open>The collaborators that are not in this file\<close>

text \<open>
  Modelled from the spec: \<^verbatim>\<open>xbps_get_pkg_name\<close> is defined in another file of the
  library, which is not among the sources. The spec has it extract the bare package
  name from a dependent reference of the form \<^verbatim>\<open>name-version\<close> by stripping the
  trailing version suffix, and fail on a string that is not of that form: here the
  name is what stands before the last \<^verbatim>\<open>-\<close>, and a string without \<^verbatim>\<open>-\<close> gives
  \<^verbatim>\<open>NULL\<close>.
\<close>

definition xbps_get_pkg_name :: "string \<Rightarrow> string option" where
  "xbps_get_pkg_name pkg =
     (if CHR ''-'' \<in> set pkg
      then Some (rev (tl (dropWhile (\<lambda>c. c \<noteq> CHR ''-'') (rev pkg))))
      else None)"

text \<open>
  Modelled from the spec: \<^verbatim>\<open>xbps_get_pkg_state_dictionary\<close> is defined in another
  file of the library, which is not among the sources. The spec has it resolve a
  record's installation state or answer an error; its answer for a dictionary is the
  field \<open>d_state\<close>.
\<close>

definition xbps_get_pkg_state_dictionary :: "prop_dictionary \<Rightarrow> int \<times> pkg_state_t" where
  "xbps_get_pkg_state_dictionary obj = d_state obj"

text \<open>
  Modelled from the spec: \<^verbatim>\<open>xbps_regpkgdb_dictionary_get\<close> and
  \<^verbatim>\<open>xbps_regpkgdb_dictionary_release\<close> are defined in another file of the library,
  which is not among the sources. The spec has the first obtain the registry snapshot
  or fail, and the second release it, once for each successful acquisition.
\<close>

definition xbps_regpkgdb_dictionary_get :: "xbps_state \<Rightarrow> prop_dictionary list option \<times> xbps_state" where
  "xbps_regpkgdb_dictionary_get s =
     (case regpkgdb s of
        None \<Rightarrow> (None, s)
      | Some pkgs \<Rightarrow> (Some pkgs, s\<lparr>regpkgdb_refs := regpkgdb_refs s + 1\<rparr>))"

definition xbps_regpkgdb_dictionary_release :: "xbps_state \<Rightarrow> xbps_state" where
  "xbps_regpkgdb_dictionary_release s = s\<lparr>regpkgdb_refs := regpkgdb_refs s - 1\<rparr>"

text \<open>
  Modelled from the spec: \<^verbatim>\<open>xbps_callback_array_iter_reverse_in_dict\<close> is defined in
  another file of the library, which is not among the sources. The spec has the
  package list walked in reverse registration order, one call of the callback for
  each record, and the first error abort the walk. \<open>array_iter\<close> calls the callback
  on the elements in the order given.
\<close>

fun array_iter ::
  "('a \<Rightarrow> xbps_state \<Rightarrow> int \<times> xbps_state) \<Rightarrow> 'a list \<Rightarrow> xbps_state \<Rightarrow> int \<times> xbps_state" where
  "array_iter fn [] s = (0, s)"
| "array_iter fn (obj # objs) s =
     (case fn obj s of
        (rv, s1) \<Rightarrow> (if rv \<noteq> 0 then (rv, s1) else array_iter fn objs s1))"

definition xbps_callback_array_iter_reverse_in_dict ::
  "'a list \<Rightarrow> ('a \<Rightarrow> xbps_state \<Rightarrow> int \<times> xbps_state) \<Rightarrow> xbps_state \<Rightarrow> int \<times> xbps_state" where
  "xbps_callback_array_iter_reverse_in_dict pkgs fn s = array_iter fn (rev pkgs) s"

subsection \<open>\<^verbatim>\<open>find_orphan_pkg\<close>\<close>

text \<open>
  The \<^verbatim>\<open>SIMPLEQ_FOREACH\<close> of lines 117 to 122: is there an orphan in the queue whose
  \<^verbatim>\<open>pkgname\<close> is the given name?
\<close>

definition orphan_listed :: "orphan_pkg list \<Rightarrow> string \<Rightarrow> bool" where
  "orphan_listed orphans name = list_ex (\<lambda>orphan. pkgname orphan = name) orphans"

text \<open>
  The \<^verbatim>\<open>while\<close> loop of lines 112 to 124 over the elements the iterator still has to
  give, with the value of \<^verbatim>\<open>ndep\<close> so far: \<open>None\<close> when \<^verbatim>\<open>xbps_get_pkg_name\<close>
  returns \<^verbatim>\<open>NULL\<close> (the function then returns \<^verbatim>\<open>EINVAL\<close>), the final \<^verbatim>\<open>ndep\<close>
  otherwise. The \<^verbatim>\<open>break\<close> of line 120 leaves the inner loop only: every element of
  the array is looked at.
\<close>

fun reqby_loop :: "string list \<Rightarrow> orphan_pkg list \<Rightarrow> nat \<Rightarrow> nat option" where
  "reqby_loop [] orphans ndep = Some ndep"
| "reqby_loop (obj2 # rest) orphans ndep =
     (case xbps_get_pkg_name obj2 of
        None \<Rightarrow> None
      | Some name \<Rightarrow>
          reqby_loop rest orphans (if orphan_listed orphans name then ndep + 1 else ndep))"

text \<open>
  The label \<^verbatim>\<open>add_orphan\<close>, lines 129 to 139: allocate the queue entry, store the
  package name and a copy of the dictionary in it, and insert it at the tail. The
  source stores the result of \<^verbatim>\<open>prop_dictionary_copy\<close> unchecked and has no branch for
  its failure; the model has none either, and the copy is taken to succeed. The
  result of \<^verbatim>\<open>prop_dictionary_get_cstring_nocopy\<close> is unchecked as well: \<^verbatim>\<open>pkgname\<close> is
  a mandatory key of a package dictionary.
\<close>

definition add_orphan :: "prop_dictionary \<Rightarrow> xbps_state \<Rightarrow> int \<times> xbps_state" where
  "add_orphan obj s =
     (case allocate s of
        (ok, s1) \<Rightarrow>
          (if \<not> ok then (errno s1, s1)
           else (0, s1\<lparr>orphan_list := orphan_list s1 @ [\<lparr>dict = obj, pkgname = d_pkgname obj\<rparr>],
                       copy_refs := copy_refs s1 + 1\<rparr>)))"

definition find_orphan_pkg :: "prop_dictionary \<Rightarrow> xbps_state \<Rightarrow> int \<times> xbps_state" where
  "find_orphan_pkg obj s =
     (if d_automatic_install obj \<noteq> Some True then (0, s)
      else
        (case xbps_get_pkg_state_dictionary obj of
           (rv, state) \<Rightarrow>
             (if rv \<noteq> 0 then (rv, s)
              else if state \<noteq> XBPS_PKG_STATE_INSTALLED then (0, s)
              else
                (case d_requiredby obj of
                   None \<Rightarrow> (0, s)
                 | Some reqby \<Rightarrow>
                     (if prop_object_type reqby \<noteq> PROP_TYPE_ARRAY then (EINVAL, s)
                      else if prop_array_count reqby = 0 then add_orphan obj s
                      else
                        (case prop_array_iterator reqby s of
                           (None, s1) \<Rightarrow> (errno s1, s1)
                         | (Some iter, s1) \<Rightarrow>
                             (case reqby_loop iter (orphan_list s1) 0 of
                                None \<Rightarrow> (EINVAL, s1)
                              | Some ndep \<Rightarrow>
                                  (if ndep \<noteq> prop_array_count reqby then (0, s1)
                                   else add_orphan obj s1))))))))"

subsection \<open>\<^verbatim>\<open>cleanup\<close> and \<^verbatim>\<open>xbps_find_orphan_packages\<close>\<close>

text \<open>The \<^verbatim>\<open>while\<close> loop of \<^verbatim>\<open>cleanup\<close>, lines 147 to 151.\<close>

function cleanup_loop :: "xbps_state \<Rightarrow> xbps_state" where
  "cleanup_loop s =
     (case orphan_list s of
        [] \<Rightarrow> s
      | orphan # rest \<Rightarrow>
          cleanup_loop (prop_object_release (dict orphan) (s\<lparr>orphan_list := rest\<rparr>)))"
  by pat_completeness auto
termination
  by (relation "measure (\<lambda>s. length (orphan_list s))") (auto simp: prop_object_release_def)

declare cleanup_loop.simps [simp del]

definition cleanup :: "xbps_state \<Rightarrow> xbps_state" where
  "cleanup s = xbps_regpkgdb_dictionary_release (cleanup_loop s)"

text \<open>
  The \<^verbatim>\<open>while\<close> loop of \<^verbatim>\<open>xbps_find_orphan_packages\<close>, lines 185 to 193, with the
  array built so far, up to the return of the function: \<^verbatim>\<open>NULL\<close> after \<^verbatim>\<open>cleanup\<close>
  when an entry cannot be added, the array after the release of the database when the
  queue is empty.
\<close>

function drain_loop ::
  "prop_dictionary list \<Rightarrow> xbps_state \<Rightarrow> prop_dictionary list option \<times> xbps_state" where
  "drain_loop array s =
     (case orphan_list s of
        [] \<Rightarrow> (Some array, xbps_regpkgdb_dictionary_release s)
      | orphan # rest \<Rightarrow>
          (case prop_array_add array (dict orphan) s of
             (None, s1) \<Rightarrow> (None, cleanup s1)
           | (Some array1, s1) \<Rightarrow>
               drain_loop array1 (prop_object_release (dict orphan) (s1\<lparr>orphan_list := rest\<rparr>))))"
  by pat_completeness auto
termination
  by (relation "measure (\<lambda>(array, s). length (orphan_list s))")
    (auto simp: prop_object_release_def)

declare drain_loop.simps [simp del]

definition xbps_find_orphan_packages :: "xbps_state \<Rightarrow> prop_dictionary list option \<times> xbps_state" where
  "xbps_find_orphan_packages s =
     (case xbps_regpkgdb_dictionary_get s of
        (None, s1) \<Rightarrow> (None, s1)
      | (Some pkgs, s1) \<Rightarrow>
          (case xbps_callback_array_iter_reverse_in_dict pkgs find_orphan_pkg s1 of
             (rv, s2) \<Rightarrow>
               (if rv \<noteq> 0 then (None, cleanup (s2\<lparr>errno := rv\<rparr>))
                else
                  (case prop_array_create s2 of
                     (None, s3) \<Rightarrow> (None, cleanup s3)
                   | (Some array, s3) \<Rightarrow> drain_loop array s3))))"

subsection \<open>What a walk without error leaves in the queue\<close>

text \<open>
  The following functions are not in the source: they describe, without the state, the
  decision that \<^verbatim>\<open>find_orphan_pkg\<close> takes when it returns 0, and are related to it by
  the lemmas below.

  \<open>dep_orphaned\<close>: the dependent reference has a bare name, and an orphan of the queue
  bears it. \<open>is_orphan\<close>: the record is automatic, installed, has a \<^verbatim>\<open>requiredby\<close> array,
  and as many of its references name a queued orphan as it has references.
  \<open>queued_ok\<close>: what holds of every entry that \<^verbatim>\<open>add_orphan\<close> has queued.
\<close>

definition dep_orphaned :: "orphan_pkg list \<Rightarrow> string \<Rightarrow> bool" where
  "dep_orphaned orphans obj2 =
     (case xbps_get_pkg_name obj2 of None \<Rightarrow> False | Some name \<Rightarrow> orphan_listed orphans name)"

definition queued_ok :: "orphan_pkg \<Rightarrow> bool" where
  "queued_ok orphan =
     (pkgname orphan = d_pkgname (dict orphan) \<and>
      d_automatic_install (dict orphan) = Some True \<and>
      d_state (dict orphan) = (0, XBPS_PKG_STATE_INSTALLED) \<and>
      d_requiredby (dict orphan) \<noteq> None)"

definition is_orphan :: "prop_dictionary \<Rightarrow> orphan_pkg list \<Rightarrow> bool" where
  "is_orphan obj orphans =
     (d_automatic_install obj = Some True \<and>
      d_state obj = (0, XBPS_PKG_STATE_INSTALLED) \<and>
      (case d_requiredby obj of
         Some (Prop_array refs) \<Rightarrow> length (filter (dep_orphaned orphans) refs) = length refs
       | _ \<Rightarrow> False))"

fun orphans_walk :: "prop_dictionary list \<Rightarrow> orphan_pkg list \<Rightarrow> orphan_pkg list" where
  "orphans_walk [] orphans = orphans"
| "orphans_walk (obj # objs) orphans =
     orphans_walk objs
       (if is_orphan obj orphans then orphans @ [\<lparr>dict = obj, pkgname = d_pkgname obj\<rparr>]
        else orphans)"

subsection \<open>Registries on which no record is malformed\<close>

text \<open>
  \<open>well_formed\<close>: the record gives \<^verbatim>\<open>find_orphan_pkg\<close> no reason to return an error,
  in the order of its tests. A record that is not automatic is not looked at any
  further; the state of an automatic record resolves without error; and when it is
  installed, its \<^verbatim>\<open>requiredby\<close> object is absent, or an array of references that all
  have a bare package name.
\<close>

definition well_formed :: "prop_dictionary \<Rightarrow> bool" where
  "well_formed obj =
     (if d_automatic_install obj \<noteq> Some True then True
      else if fst (d_state obj) \<noteq> 0 then False
      else if snd (d_state obj) \<noteq> XBPS_PKG_STATE_INSTALLED then True
      else
        (case d_requiredby obj of
           None \<Rightarrow> True
         | Some (Prop_array refs) \<Rightarrow> list_all (\<lambda>d. xbps_get_pkg_name d \<noteq> None) refs
         | Some _ \<Rightarrow> False))"

subsection \<open>Concrete registries\<close>

text \<open>
  The state of a process that has not yet called \<^verbatim>\<open>xbps_find_orphan_packages\<close>, or
  has returned from it: the queue is empty and nothing is held. \<open>db\<close> is the
  database, \<open>plan\<close> the outcomes of the allocation requests to come.
\<close>

definition start :: "prop_dictionary list option \<Rightarrow> bool list \<Rightarrow> xbps_state" where
  "start db plan =
     \<lparr>orphan_list = [], regpkgdb = db, regpkgdb_refs = 0, errno = 0,
      alloc_plan = plan, copy_refs = 0\<rparr>"

text \<open>The two records of the scenario of the spec.\<close>

definition pkg_A :: prop_dictionary where
  "pkg_A =
     \<lparr>d_pkgname = ''A'', d_automatic_install = Some True,
      d_state = (0, XBPS_PKG_STATE_INSTALLED),
      d_requiredby = Some (Prop_array [''B-2.0''])\<rparr>"

definition pkg_B :: prop_dictionary where
  "pkg_B =
     \<lparr>d_pkgname = ''B'', d_automatic_install = Some True,
      d_state = (0, XBPS_PKG_STATE_INSTALLED),
      d_requiredby = Some (Prop_array [])\<rparr>"

text \<open>\<open>pkg_C\<close> is automatic and installed and has no \<^verbatim>\<open>requiredby\<close> key.\<close>

definition pkg_C :: prop_dictionary where
  "pkg_C =
     \<lparr>d_pkgname = ''C'', d_automatic_install = Some True,
      d_state = (0, XBPS_PKG_STATE_INSTALLED), d_requiredby = None\<rparr>"

text \<open>\<open>pkg_D\<close> is automatic and installed, and one of its two dependents is not an orphan.\<close>

definition pkg_D :: prop_dictionary where
  "pkg_D =
     \<lparr>d_pkgname = ''D'', d_automatic_install = Some True,
      d_state = (0, XBPS_PKG_STATE_INSTALLED),
      d_requiredby = Some (Prop_array [''B-2.0'', ''Z-1.0''])\<rparr>"

text \<open>\<open>pkg_E\<close> was installed on request, and its \<^verbatim>\<open>requiredby\<close> object is a string.\<close>

definition pkg_E :: prop_dictionary where
  "pkg_E =
     \<lparr>d_pkgname = ''E'', d_automatic_install = Some False,
      d_state = (0, XBPS_PKG_STATE_INSTALLED),
      d_requiredby = Some (Prop_string ''B-2.0'')\<rparr>"

text \<open>\<open>pkg_F\<close> is automatic and installed, and its \<^verbatim>\<open>requiredby\<close> object is a string.\<close>

definition pkg_F :: prop_dictionary where
  "pkg_F =
     \<lparr>d_pkgname = ''F'', d_automatic_install = Some True,
      d_state = (0, XBPS_PKG_STATE_INSTALLED),
      d_requiredby = Some (Prop_string ''B-2.0'')\<rparr>"

text \<open>\<open>pkg_G\<close> is automatic and installed, and one of its references has no version.\<close>

definition pkg_G :: prop_dictionary where
  "pkg_G =
     \<lparr>d_pkgname = ''G'', d_automatic_install = Some True,
      d_state = (0, XBPS_PKG_STATE_INSTALLED),
      d_requiredby = Some (Prop_array [''B-2.0'', ''noversion''])\<rparr>"

text \<open>\<open>pkg_H\<close> is automatic, and the resolution of its state fails with the error 2.\<close>

definition pkg_H :: prop_dictionary where
  "pkg_H =
     \<lparr>d_pkgname = ''H'', d_automatic_install = Some True,
      d_state = (2, Pkg_state_other 0), d_requiredby = Some (Prop_array [])\<rparr>"

section \<open>Properties\<close>

subsection \<open>One call of \<^verbatim>\<open>find_orphan_pkg\<close>\<close>

lemma allocate_frame [simp]:
  "orphan_list (snd (allocate s)) = orphan_list s"
  "regpkgdb (snd (allocate s)) = regpkgdb s"
  "regpkgdb_refs (snd (allocate s)) = regpkgdb_refs s"
  "copy_refs (snd (allocate s)) = copy_refs s"
  by (simp_all add: allocate_def split: list.splits)

lemma allocate_fails: "\<not> fst (allocate s) \<Longrightarrow> errno (snd (allocate s)) = ENOMEM"
  by (simp add: allocate_def split: list.splits)

lemma errno_consts [simp]: "EINVAL \<noteq> 0" "ENOMEM \<noteq> 0"
  by (simp_all add: EINVAL_def ENOMEM_def)

lemma reqby_loop_eq:
  "reqby_loop refs orphans n =
     (if list_ex (\<lambda>d. xbps_get_pkg_name d = None) refs then None
      else Some (n + length (filter (dep_orphaned orphans) refs)))"
  by (induction refs arbitrary: n) (auto simp: dep_orphaned_def split: option.splits)

lemma add_orphan_eq:
  "add_orphan obj s =
     (if fst (allocate s)
      then (0, (snd (allocate s))\<lparr>orphan_list := orphan_list s @ [\<lparr>dict = obj, pkgname = d_pkgname obj\<rparr>],
                       copy_refs := copy_refs s + 1\<rparr>)
      else (ENOMEM, snd (allocate s)))"
  by (simp add: add_orphan_def split_def allocate_fails)

lemma prop_array_iterator_eq:
  "prop_array_iterator (Prop_array refs) s =
     (if fst (allocate s) then (Some refs, snd (allocate s)) else (None, snd (allocate s)))"
  by (simp add: prop_array_iterator_def split_def)

text \<open>\<^verbatim>\<open>find_orphan_pkg\<close> on a record, by the shape of the record.\<close>

lemma find_orphan_pkg_not_automatic:
  "d_automatic_install obj \<noteq> Some True \<Longrightarrow> find_orphan_pkg obj s = (0, s)"
  by (simp add: find_orphan_pkg_def)

lemma find_orphan_pkg_state_error:
  "d_automatic_install obj = Some True \<Longrightarrow> fst (d_state obj) \<noteq> 0 \<Longrightarrow>
   find_orphan_pkg obj s = (fst (d_state obj), s)"
  by (simp add: find_orphan_pkg_def xbps_get_pkg_state_dictionary_def split_def)

lemma find_orphan_pkg_not_installed:
  "d_automatic_install obj = Some True \<Longrightarrow> fst (d_state obj) = 0 \<Longrightarrow>
   snd (d_state obj) \<noteq> XBPS_PKG_STATE_INSTALLED \<Longrightarrow> find_orphan_pkg obj s = (0, s)"
  by (simp add: find_orphan_pkg_def xbps_get_pkg_state_dictionary_def split_def)

lemma find_orphan_pkg_no_reqby:
  "d_requiredby obj = None \<Longrightarrow> fst (d_state obj) = 0 \<Longrightarrow> find_orphan_pkg obj s = (0, s)"
  by (simp add: find_orphan_pkg_def xbps_get_pkg_state_dictionary_def split_def)

lemma find_orphan_pkg_not_array:
  "d_automatic_install obj = Some True \<Longrightarrow> d_state obj = (0, XBPS_PKG_STATE_INSTALLED) \<Longrightarrow>
   d_requiredby obj = Some reqby \<Longrightarrow> prop_object_type reqby \<noteq> PROP_TYPE_ARRAY \<Longrightarrow>
   find_orphan_pkg obj s = (EINVAL, s)"
  by (simp add: find_orphan_pkg_def xbps_get_pkg_state_dictionary_def)

lemma find_orphan_pkg_array:
  "d_automatic_install obj = Some True \<Longrightarrow> d_state obj = (0, XBPS_PKG_STATE_INSTALLED) \<Longrightarrow>
   d_requiredby obj = Some (Prop_array refs) \<Longrightarrow>
   find_orphan_pkg obj s =
     (if refs = [] then add_orphan obj s
      else if \<not> fst (allocate s) then (ENOMEM, snd (allocate s))
      else if list_ex (\<lambda>d. xbps_get_pkg_name d = None) refs then (EINVAL, snd (allocate s))
      else if length (filter (dep_orphaned (orphan_list s)) refs) \<noteq> length refs
        then (0, snd (allocate s))
      else add_orphan obj (snd (allocate s)))"
  by (simp add: find_orphan_pkg_def xbps_get_pkg_state_dictionary_def prop_array_iterator_eq
      reqby_loop_eq allocate_fails)

lemma find_orphan_pkg_ok:
  assumes "find_orphan_pkg obj s = (0, s')"
  shows "orphan_list s' =
    (if is_orphan obj (orphan_list s)
     then orphan_list s @ [\<lparr>dict = obj, pkgname = d_pkgname obj\<rparr>] else orphan_list s)"
proof (cases "d_automatic_install obj = Some True \<and> d_state obj = (0, XBPS_PKG_STATE_INSTALLED)")
  case False
  then have "\<not> is_orphan obj (orphan_list s)"
    using assms
    by (auto simp: is_orphan_def find_orphan_pkg_def xbps_get_pkg_state_dictionary_def
        split: prod.splits if_splits)
  moreover have "orphan_list s' = orphan_list s"
    using False assms
    by (auto simp: find_orphan_pkg_def xbps_get_pkg_state_dictionary_def
        split: prod.splits if_splits)
  ultimately show ?thesis by simp
next
  case True
  show ?thesis
  proof (cases "d_requiredby obj")
    case None
    with True assms show ?thesis
      by (simp add: find_orphan_pkg_no_reqby is_orphan_def)
  next
    case (Some reqby)
    show ?thesis
    proof (cases reqby)
      case (Prop_array refs)
      with True Some assms show ?thesis
        by (auto simp: find_orphan_pkg_array is_orphan_def add_orphan_eq split: if_splits)
    qed (use True Some assms in \<open>simp_all add: find_orphan_pkg_not_array\<close>)
  qed
qed

text \<open>
  Every path through \<^verbatim>\<open>find_orphan_pkg\<close> ends in one of five ways: a property of all
  five is a property of the function.
\<close>

lemma find_orphan_pkg_outcomes:
  assumes "P (0, s)"
    and "\<And>rv. rv \<noteq> 0 \<Longrightarrow> P (rv, s)"
    and "P (add_orphan obj s)"
    and "\<And>rv. P (rv, snd (allocate s))"
    and "P (add_orphan obj (snd (allocate s)))"
  shows "P (find_orphan_pkg obj s)"
proof (cases "d_automatic_install obj = Some True")
  case False
  with assms(1) show ?thesis by (simp add: find_orphan_pkg_not_automatic)
next
  case auto: True
  show ?thesis
  proof (cases "fst (d_state obj) = 0")
    case False
    with auto assms(2) show ?thesis by (simp add: find_orphan_pkg_state_error)
  next
    case rv: True
    show ?thesis
    proof (cases "snd (d_state obj) = XBPS_PKG_STATE_INSTALLED")
      case False
      with auto rv assms(1) show ?thesis by (simp add: find_orphan_pkg_not_installed)
    next
      case True
      with rv have st: "d_state obj = (0, XBPS_PKG_STATE_INSTALLED)"
        by (cases "d_state obj") simp
      show ?thesis
      proof (cases "d_requiredby obj")
        case None
        with rv assms(1) show ?thesis by (simp add: find_orphan_pkg_no_reqby)
      next
        case (Some reqby)
        show ?thesis
        proof (cases reqby)
          case (Prop_array refs)
          with auto st Some assms(3-5) show ?thesis
            by (simp add: find_orphan_pkg_array)
        qed (use auto st Some assms(2) in \<open>simp_all add: find_orphan_pkg_not_array\<close>)
      qed
    qed
  qed
qed

text \<open>What a call leaves untouched, and the count of the references on the copies.\<close>

lemma find_orphan_pkg_regpkgdb [simp]:
  "regpkgdb (snd (find_orphan_pkg obj s)) = regpkgdb s"
  by (rule find_orphan_pkg_outcomes) (simp_all add: add_orphan_eq)

lemma find_orphan_pkg_regpkgdb_refs [simp]:
  "regpkgdb_refs (snd (find_orphan_pkg obj s)) = regpkgdb_refs s"
  by (rule find_orphan_pkg_outcomes) (simp_all add: add_orphan_eq)

lemma find_orphan_pkg_copy_refs:
  "copy_refs (snd (find_orphan_pkg obj s)) + length (orphan_list s) =
   copy_refs s + length (orphan_list (snd (find_orphan_pkg obj s)))"
  by (rule find_orphan_pkg_outcomes) (simp_all add: add_orphan_eq)

subsection \<open>The walk\<close>

lemma array_iter_append:
  "array_iter fn (xs @ ys) s =
     (if fst (array_iter fn xs s) \<noteq> 0 then array_iter fn xs s
      else array_iter fn ys (snd (array_iter fn xs s)))"
  by (induction xs arbitrary: s) (simp_all add: split_def)

lemma array_iter_regpkgdb [simp]:
  "regpkgdb (snd (array_iter find_orphan_pkg xs s)) = regpkgdb s"
  by (induction xs arbitrary: s) (simp_all add: split_def)

lemma array_iter_regpkgdb_refs [simp]:
  "regpkgdb_refs (snd (array_iter find_orphan_pkg xs s)) = regpkgdb_refs s"
  by (induction xs arbitrary: s) (simp_all add: split_def)

lemma array_iter_copy_refs:
  "copy_refs (snd (array_iter find_orphan_pkg xs s)) + length (orphan_list s) =
   copy_refs s + length (orphan_list (snd (array_iter find_orphan_pkg xs s)))"
proof (induction xs arbitrary: s)
  case Nil
  show ?case by simp
next
  case (Cons x xs)
  show ?case
    using find_orphan_pkg_copy_refs [of x s] Cons.IH [of "snd (find_orphan_pkg x s)"]
    by (simp add: split_def)
qed

lemma array_iter_ok:
  "array_iter find_orphan_pkg xs s = (0, s') \<Longrightarrow>
   orphan_list s' = orphans_walk xs (orphan_list s)"
proof (induction xs arbitrary: s)
  case Nil
  then show ?case by simp
next
  case (Cons x xs)
  obtain rv s1 where step: "find_orphan_pkg x s = (rv, s1)"
    by (cases "find_orphan_pkg x s")
  with Cons.prems have rv: "rv = 0" and rest: "array_iter find_orphan_pkg xs s1 = (0, s')"
    by (auto split: if_splits)
  from step rv have "orphan_list s1 =
      (if is_orphan x (orphan_list s)
       then orphan_list s @ [\<lparr>dict = x, pkgname = d_pkgname x\<rparr>] else orphan_list s)"
    by (simp add: find_orphan_pkg_ok)
  with Cons.IH [OF rest] show ?case by simp
qed

subsection \<open>\<^verbatim>\<open>cleanup\<close> and the final loop\<close>

lemma cleanup_loop_eq:
  "cleanup_loop s = s\<lparr>orphan_list := [], copy_refs := copy_refs s - length (orphan_list s)\<rparr>"
proof (induction s rule: cleanup_loop.induct)
  case (1 s)
  show ?case
  proof (cases "orphan_list s")
    case Nil
    then show ?thesis by (subst cleanup_loop.simps) simp
  next
    case (Cons orphan rest)
    then show ?thesis
      using "1.IH" [OF Cons]
      by (subst cleanup_loop.simps) (simp add: prop_object_release_def)
  qed
qed

lemma cleanup_eq:
  "cleanup s = s\<lparr>orphan_list := [], copy_refs := copy_refs s - length (orphan_list s),
     regpkgdb_refs := regpkgdb_refs s - 1\<rparr>"
  by (simp add: cleanup_def cleanup_loop_eq xbps_regpkgdb_dictionary_release_def)

lemma prop_array_add_eq:
  "prop_array_add array d s =
     (if fst (allocate s) then (Some (array @ [d]), (snd (allocate s))\<lparr>copy_refs := copy_refs s + 1\<rparr>)
      else (None, snd (allocate s)))"
  by (simp add: prop_array_add_def split_def)

lemma allocate_copy_refs_update [simp]:
  "(snd (allocate s))\<lparr>orphan_list := l, copy_refs := copy_refs s\<rparr> =
   (snd (allocate s))\<lparr>orphan_list := l\<rparr>"
  by (simp add: allocate_def split: list.splits)

lemma drain_loop_Nil:
  "orphan_list s = [] \<Longrightarrow> drain_loop array s = (Some array, xbps_regpkgdb_dictionary_release s)"
  by (subst drain_loop.simps) simp

lemma drain_loop_Cons:
  "orphan_list s = orphan # rest \<Longrightarrow>
   drain_loop array s =
     (if fst (allocate s)
      then drain_loop (array @ [dict orphan]) ((snd (allocate s))\<lparr>orphan_list := rest\<rparr>)
      else (None, cleanup (snd (allocate s))))"
  by (subst drain_loop.simps) (simp add: prop_array_add_eq prop_object_release_def)

lemma drain_loop_Some:
  "drain_loop array s = (Some out, s') \<Longrightarrow> out = array @ map dict (orphan_list s)"
proof (induction "orphan_list s" arbitrary: array s)
  case Nil
  then show ?case by (simp add: drain_loop_Nil)
next
  case (Cons orphan rest)
  from Cons.hyps(2) [symmetric] Cons.prems
  have ok: "fst (allocate s)"
    and rest: "drain_loop (array @ [dict orphan]) ((snd (allocate s))\<lparr>orphan_list := rest\<rparr>) = (Some out, s')"
    by (auto simp: drain_loop_Cons split: if_splits)
  from Cons.hyps(1) [OF _ rest] Cons.hyps(2) [symmetric] show ?case by simp
qed

lemma drain_loop_orphan_list [simp]:
  "orphan_list (snd (drain_loop array s)) = []"
proof (induction "orphan_list s" arbitrary: array s)
  case Nil
  then show ?case by (simp add: drain_loop_Nil xbps_regpkgdb_dictionary_release_def)
next
  case (Cons orphan rest)
  from Cons.hyps(1) [of "(snd (allocate s))\<lparr>orphan_list := rest\<rparr>" "array @ [dict orphan]"]
    Cons.hyps(2) [symmetric]
  show ?case by (simp add: drain_loop_Cons cleanup_eq)
qed

lemma drain_loop_regpkgdb [simp]:
  "regpkgdb (snd (drain_loop array s)) = regpkgdb s"
proof (induction "orphan_list s" arbitrary: array s)
  case Nil
  then show ?case by (simp add: drain_loop_Nil xbps_regpkgdb_dictionary_release_def)
next
  case (Cons orphan rest)
  from Cons.hyps(1) [of "(snd (allocate s))\<lparr>orphan_list := rest\<rparr>" "array @ [dict orphan]"]
    Cons.hyps(2) [symmetric]
  show ?case by (simp add: drain_loop_Cons cleanup_eq)
qed

lemma drain_loop_regpkgdb_refs [simp]:
  "regpkgdb_refs (snd (drain_loop array s)) = regpkgdb_refs s - 1"
proof (induction "orphan_list s" arbitrary: array s)
  case Nil
  then show ?case by (simp add: drain_loop_Nil xbps_regpkgdb_dictionary_release_def)
next
  case (Cons orphan rest)
  from Cons.hyps(1) [of "(snd (allocate s))\<lparr>orphan_list := rest\<rparr>" "array @ [dict orphan]"]
    Cons.hyps(2) [symmetric]
  show ?case by (simp add: drain_loop_Cons cleanup_eq)
qed

subsection \<open>The queue after a walk without error\<close>

lemma is_orphan_queued_ok:
  "is_orphan obj orphans \<Longrightarrow> queued_ok \<lparr>dict = obj, pkgname = d_pkgname obj\<rparr>"
  by (auto simp: is_orphan_def queued_ok_def split: option.splits)

lemma orphans_walk_append:
  "orphans_walk (xs @ ys) orphans = orphans_walk ys (orphans_walk xs orphans)"
  by (induction xs arbitrary: orphans) simp_all

lemma orphans_walk_new:
  "\<exists>new. orphans_walk xs orphans = orphans @ new \<and> subseq (map dict new) xs \<and>
     list_all queued_ok new"
proof (induction xs arbitrary: orphans)
  case Nil
  show ?case by simp
next
  case (Cons x xs)
  let ?entry = "\<lparr>dict = x, pkgname = d_pkgname x\<rparr>"
  let ?next = "if is_orphan x orphans then orphans @ [?entry] else orphans"
  from Cons.IH [of ?next] obtain new
    where new: "orphans_walk xs ?next = ?next @ new" "subseq (map dict new) xs"
      "list_all queued_ok new"
    by blast
  show ?case
  proof (cases "is_orphan x orphans")
    case True
    with new have "orphans_walk (x # xs) orphans = orphans @ (?entry # new)"
      and "subseq (map dict (?entry # new)) (x # xs)"
      and "list_all queued_ok (?entry # new)"
      by (simp_all add: is_orphan_queued_ok)
    then show ?thesis by blast
  next
    case False
    with new have "orphans_walk (x # xs) orphans = orphans @ new"
      and "subseq (map dict new) (x # xs)"
      by (simp_all add: list_emb_Cons)
    with new(3) show ?thesis by blast
  qed
qed

subsection \<open>The whole call\<close>

lemma xbps_find_orphan_packages_unavailable:
  "regpkgdb s = None \<Longrightarrow> xbps_find_orphan_packages s = (None, s)"
  by (simp add: xbps_find_orphan_packages_def xbps_regpkgdb_dictionary_get_def)

lemma prop_array_create_eq:
  "prop_array_create s =
     (if fst (allocate s) then (Some [], snd (allocate s)) else (None, snd (allocate s)))"
  by (simp add: prop_array_create_def split_def)

text \<open>The state in which the walk of a call starts, and the outcome of the walk.\<close>

lemma xbps_find_orphan_packages_eq:
  assumes "regpkgdb s = Some pkgs"
    and "array_iter find_orphan_pkg (rev pkgs) (s\<lparr>regpkgdb_refs := regpkgdb_refs s + 1\<rparr>) = (rv, s2)"
  shows "xbps_find_orphan_packages s =
     (if rv \<noteq> 0 then (None, cleanup (s2\<lparr>errno := rv\<rparr>))
      else if \<not> fst (allocate s2) then (None, cleanup (snd (allocate s2)))
      else drain_loop [] (snd (allocate s2)))"
  using assms
  by (simp add: xbps_find_orphan_packages_def xbps_regpkgdb_dictionary_get_def
      xbps_callback_array_iter_reverse_in_dict_def prop_array_create_eq)

lemma xbps_find_orphan_packages_orphan_list:
  "orphan_list s = [] \<Longrightarrow> orphan_list (snd (xbps_find_orphan_packages s)) = []"
proof (cases "regpkgdb s")
  case None
  then show "orphan_list s = [] \<Longrightarrow> ?thesis"
    by (simp add: xbps_find_orphan_packages_unavailable)
next
  case (Some pkgs)
  obtain rv s2 where "array_iter find_orphan_pkg (rev pkgs) (s\<lparr>regpkgdb_refs := regpkgdb_refs s + 1\<rparr>) = (rv, s2)"
    by (cases "array_iter find_orphan_pkg (rev pkgs) (s\<lparr>regpkgdb_refs := regpkgdb_refs s + 1\<rparr>)")
  from xbps_find_orphan_packages_eq [OF Some this] show ?thesis
    by (simp add: cleanup_eq)
qed

lemma xbps_find_orphan_packages_regpkgdb:
  "regpkgdb (snd (xbps_find_orphan_packages s)) = regpkgdb s"
proof (cases "regpkgdb s")
  case None
  then show ?thesis
    by (simp add: xbps_find_orphan_packages_unavailable)
next
  case (Some pkgs)
  obtain rv s2 where w: "array_iter find_orphan_pkg (rev pkgs) (s\<lparr>regpkgdb_refs := regpkgdb_refs s + 1\<rparr>) = (rv, s2)"
    by (cases "array_iter find_orphan_pkg (rev pkgs) (s\<lparr>regpkgdb_refs := regpkgdb_refs s + 1\<rparr>)")
  from w have "s2 = snd (array_iter find_orphan_pkg (rev pkgs) (s\<lparr>regpkgdb_refs := regpkgdb_refs s + 1\<rparr>))"
    by simp
  then have "regpkgdb s2 = regpkgdb s"
    by simp
  with xbps_find_orphan_packages_eq [OF Some w] show ?thesis
    by (simp add: cleanup_eq)
qed

lemma xbps_find_orphan_packages_regpkgdb_refs:
  "regpkgdb_refs (snd (xbps_find_orphan_packages s)) = regpkgdb_refs s"
proof (cases "regpkgdb s")
  case None
  then show ?thesis
    by (simp add: xbps_find_orphan_packages_unavailable)
next
  case (Some pkgs)
  obtain rv s2 where w: "array_iter find_orphan_pkg (rev pkgs) (s\<lparr>regpkgdb_refs := regpkgdb_refs s + 1\<rparr>) = (rv, s2)"
    by (cases "array_iter find_orphan_pkg (rev pkgs) (s\<lparr>regpkgdb_refs := regpkgdb_refs s + 1\<rparr>)")
  from w have "s2 = snd (array_iter find_orphan_pkg (rev pkgs) (s\<lparr>regpkgdb_refs := regpkgdb_refs s + 1\<rparr>))"
    by simp
  then have "regpkgdb_refs s2 = regpkgdb_refs s + 1"
    by simp
  with xbps_find_orphan_packages_eq [OF Some w] show ?thesis
    by (simp add: cleanup_eq)
qed

lemma xbps_find_orphan_packages_Some:
  assumes "orphan_list s = []" and "xbps_find_orphan_packages s = (Some array, s')"
  shows "\<exists>pkgs. regpkgdb s = Some pkgs \<and> array = map dict (orphans_walk (rev pkgs) [])"
proof (cases "regpkgdb s")
  case None
  with assms(2) show ?thesis
    by (simp add: xbps_find_orphan_packages_unavailable)
next
  case (Some pkgs)
  obtain rv s2 where w: "array_iter find_orphan_pkg (rev pkgs) (s\<lparr>regpkgdb_refs := regpkgdb_refs s + 1\<rparr>) = (rv, s2)"
    by (cases "array_iter find_orphan_pkg (rev pkgs) (s\<lparr>regpkgdb_refs := regpkgdb_refs s + 1\<rparr>)")
  from xbps_find_orphan_packages_eq [OF Some w] assms(2)
  have rv: "rv = 0" and d: "drain_loop [] (snd (allocate s2)) = (Some array, s')"
    by (auto split: if_splits)
  from w rv assms(1) have "orphan_list s2 = orphans_walk (rev pkgs) []"
    using array_iter_ok [of "rev pkgs" "s\<lparr>regpkgdb_refs := regpkgdb_refs s + 1\<rparr>" s2] by simp
  with drain_loop_Some [OF d] Some show ?thesis by simp
qed

lemma xbps_find_orphan_packages_error:
  assumes "regpkgdb s = Some pkgs"
    and "array_iter find_orphan_pkg (rev pkgs) (s\<lparr>regpkgdb_refs := regpkgdb_refs s + 1\<rparr>) = (rv, s2)"
    and "rv \<noteq> 0"
  shows "xbps_find_orphan_packages s =
    (None, s2\<lparr>orphan_list := [], copy_refs := copy_refs s2 - length (orphan_list s2),
       regpkgdb_refs := regpkgdb_refs s, errno := rv\<rparr>)"
proof -
  from assms(2)
  have "s2 = snd (array_iter find_orphan_pkg (rev pkgs) (s\<lparr>regpkgdb_refs := regpkgdb_refs s + 1\<rparr>))"
    by simp
  then have "regpkgdb_refs s2 = regpkgdb_refs s + 1"
    by simp
  with xbps_find_orphan_packages_eq [OF assms(1,2)] assms(3) show ?thesis
    by (simp add: cleanup_eq)
qed

subsection \<open>The concrete registries, evaluated\<close>

lemmas model_defs =
  xbps_find_orphan_packages_def xbps_regpkgdb_dictionary_get_def
  xbps_callback_array_iter_reverse_in_dict_def find_orphan_pkg_def
  xbps_get_pkg_state_dictionary_def add_orphan_def allocate_def prop_array_iterator_def
  xbps_get_pkg_name_def orphan_listed_def prop_array_create_def prop_array_add_def
  prop_object_release_def xbps_regpkgdb_dictionary_release_def cleanup_def
  cleanup_loop.simps drain_loop.simps EINVAL_def ENOMEM_def start_def

lemma eval_AB:
  "xbps_find_orphan_packages (start (Some [pkg_A, pkg_B]) []) =
     (Some [pkg_B, pkg_A], (start (Some [pkg_A, pkg_B]) [])\<lparr>copy_refs := 2\<rparr>)"
  by (simp add: model_defs pkg_A_def pkg_B_def)

lemma eval_AB_add_fails:
  "xbps_find_orphan_packages (start (Some [pkg_A, pkg_B]) [True, True, True, True, True, False]) =
     (None, (start (Some [pkg_A, pkg_B]) [])\<lparr>errno := ENOMEM, copy_refs := 1\<rparr>)"
  by (simp add: model_defs pkg_A_def pkg_B_def)

lemma eval_C:
  "xbps_find_orphan_packages (start (Some [pkg_C]) []) = (Some [], start (Some [pkg_C]) [])"
  by (simp add: model_defs pkg_C_def)

lemma eval_DB:
  "xbps_find_orphan_packages (start (Some [pkg_D, pkg_B]) []) =
     (Some [pkg_B], (start (Some [pkg_D, pkg_B]) [])\<lparr>copy_refs := 1\<rparr>)"
  by (simp add: model_defs pkg_D_def pkg_B_def)

lemma eval_E:
  "xbps_find_orphan_packages (start (Some [pkg_E]) []) = (Some [], start (Some [pkg_E]) [])"
  by (simp add: model_defs pkg_E_def)

lemma eval_FH:
  "xbps_find_orphan_packages (start (Some [pkg_F, pkg_H]) []) =
     (None, (start (Some [pkg_F, pkg_H]) [])\<lparr>errno := 2\<rparr>)"
  by (simp add: model_defs pkg_F_def pkg_H_def)

lemma eval_walk_B:
  "xbps_callback_array_iter_reverse_in_dict [pkg_B] find_orphan_pkg
     (snd (xbps_regpkgdb_dictionary_get (start (Some pkgs) []))) =
   (0, (start (Some pkgs) [])\<lparr>orphan_list := [\<lparr>dict = pkg_B, pkgname = ''B''\<rparr>],
      regpkgdb_refs := 1, copy_refs := 1\<rparr>)"
  by (simp add: model_defs pkg_B_def)

lemma eval_AB_again:
  "xbps_find_orphan_packages ((start (Some [pkg_A, pkg_B]) [])\<lparr>copy_refs := 2\<rparr>) =
     (Some [pkg_B, pkg_A], (start (Some [pkg_A, pkg_B]) [])\<lparr>copy_refs := 4\<rparr>)"
  by (simp add: model_defs pkg_A_def pkg_B_def)

subsection \<open>Subsequences\<close>

lemma subseq_distinct: "subseq xs ys \<Longrightarrow> distinct ys \<Longrightarrow> distinct xs"
  using subseqs_distinctD [of xs ys] by simp

lemma subseq_subset: "subseq xs ys \<Longrightarrow> set xs \<subseteq> set ys"
  by (auto dest: list_emb_set)

subsection \<open>The references that name a queued orphan\<close>

lemma dep_orphaned_iff:
  assumes "list_all queued_ok orphans"
  shows "dep_orphaned orphans obj2 \<longleftrightarrow>
    (\<exists>q\<in>set (map dict orphans). xbps_get_pkg_name obj2 = Some (d_pkgname q))"
  using assms
  by (auto simp: dep_orphaned_def orphan_listed_def list_ex_iff list_all_iff queued_ok_def
      split: option.splits)

subsection \<open>Calls that fail\<close>

text \<open>A walk over a record for which the callback always fails, fails.\<close>

lemma array_iter_fails:
  "p \<in> set xs \<Longrightarrow> (\<And>t. fst (fn p t) \<noteq> 0) \<Longrightarrow> fst (array_iter fn xs s) \<noteq> 0"
  by (induction xs arbitrary: s) (auto simp: split_def)

text \<open>A call whose walk fails returns \<^verbatim>\<open>NULL\<close> and leaves the queue empty.\<close>

lemma xbps_find_orphan_packages_fails:
  assumes "regpkgdb s = Some pkgs"
    and "fst (array_iter find_orphan_pkg (rev pkgs) (s\<lparr>regpkgdb_refs := regpkgdb_refs s + 1\<rparr>)) \<noteq> 0"
  shows "fst (xbps_find_orphan_packages s) = None \<and>
    orphan_list (snd (xbps_find_orphan_packages s)) = []"
proof -
  obtain rv s2
    where w: "array_iter find_orphan_pkg (rev pkgs) (s\<lparr>regpkgdb_refs := regpkgdb_refs s + 1\<rparr>) = (rv, s2)"
    by (cases "array_iter find_orphan_pkg (rev pkgs) (s\<lparr>regpkgdb_refs := regpkgdb_refs s + 1\<rparr>)")
  with assms(2) have "rv \<noteq> 0"
    by simp
  from xbps_find_orphan_packages_error [OF assms(1) w this] show ?thesis
    by simp
qed

lemma xbps_find_orphan_packages_fails_for:
  assumes "regpkgdb s = Some pkgs"
    and "p \<in> set pkgs"
    and "\<And>t. fst (find_orphan_pkg p t) \<noteq> 0"
  shows "fst (xbps_find_orphan_packages s) = None \<and>
    orphan_list (snd (xbps_find_orphan_packages s)) = []"
proof -
  from assms(2) have "p \<in> set (rev pkgs)"
    by simp
  then have "fst (array_iter find_orphan_pkg (rev pkgs)
      (s\<lparr>regpkgdb_refs := regpkgdb_refs s + 1\<rparr>)) \<noteq> 0"
    using assms(3) by (rule array_iter_fails)
  with assms(1) show ?thesis
    by (rule xbps_find_orphan_packages_fails)
qed

text \<open>
  A call whose walk reaches the record \<open>p\<close> (the records registered after \<open>p\<close> are
  classified without error, which leaves the state \<open>s2\<close>) and gets an error for \<open>p\<close>.
\<close>

lemma xbps_find_orphan_packages_fails_at:
  assumes "regpkgdb s = Some (before @ p # after)"
    and "xbps_callback_array_iter_reverse_in_dict after find_orphan_pkg
           (snd (xbps_regpkgdb_dictionary_get s)) = (0, s2)"
    and "find_orphan_pkg p s2 = (rv, s3)"
    and "rv \<noteq> 0"
  shows "xbps_find_orphan_packages s =
    (None, s3\<lparr>orphan_list := [], copy_refs := copy_refs s3 - length (orphan_list s3),
       regpkgdb_refs := regpkgdb_refs s, errno := rv\<rparr>)"
proof -
  let ?s1 = "s\<lparr>regpkgdb_refs := regpkgdb_refs s + 1\<rparr>"
  from assms(1,2) have "array_iter find_orphan_pkg (rev after) ?s1 = (0, s2)"
    by (simp add: xbps_callback_array_iter_reverse_in_dict_def xbps_regpkgdb_dictionary_get_def)
  with assms(3,4) have "array_iter find_orphan_pkg (rev (before @ p # after)) ?s1 = (rv, s3)"
    by (simp add: array_iter_append)
  from xbps_find_orphan_packages_error [OF assms(1) this assms(4)] show ?thesis .
qed

text \<open>
  A failure of the walk, or of \<^verbatim>\<open>prop_array_create\<close>, releases everything: the queue
  is empty, no reference is left on a copy, and the database is released.
\<close>

lemma failure_before_final_loop:
  assumes "orphan_list s = []"
    and "copy_refs s = 0"
    and "regpkgdb s = Some pkgs"
    and "array_iter find_orphan_pkg (rev pkgs) (s\<lparr>regpkgdb_refs := regpkgdb_refs s + 1\<rparr>) = (rv, s2)"
    and "rv \<noteq> 0 \<or> \<not> fst (allocate s2)"
  shows "fst (xbps_find_orphan_packages s) = None \<and>
    orphan_list (snd (xbps_find_orphan_packages s)) = [] \<and>
    copy_refs (snd (xbps_find_orphan_packages s)) = 0 \<and>
    regpkgdb_refs (snd (xbps_find_orphan_packages s)) = regpkgdb_refs s"
proof -
  from array_iter_copy_refs [of "rev pkgs" "s\<lparr>regpkgdb_refs := regpkgdb_refs s + 1\<rparr>"]
    assms(1,2,4)
  have "copy_refs s2 = length (orphan_list s2)"
    by simp
  with xbps_find_orphan_packages_eq [OF assms(3,4)] assms(5)
    xbps_find_orphan_packages_regpkgdb_refs [of s]
  show ?thesis
    by (auto simp: cleanup_eq)
qed

subsection \<open>Calls without allocation failure\<close>

lemma allocate_no_failure [simp]: "alloc_plan s = [] \<Longrightarrow> allocate s = (True, s)"
  by (simp add: allocate_def)

lemma find_orphan_pkg_again:
  assumes "find_orphan_pkg obj s = (0, s')"
    and "alloc_plan t = []"
    and "orphan_list t = orphan_list s"
  shows "fst (find_orphan_pkg obj t) = 0 \<and> alloc_plan (snd (find_orphan_pkg obj t)) = []"
proof (cases "d_automatic_install obj = Some True \<and> d_state obj = (0, XBPS_PKG_STATE_INSTALLED)")
  case False
  with assms(1,2) show ?thesis
    by (auto simp: find_orphan_pkg_def xbps_get_pkg_state_dictionary_def
        split: prod.splits if_splits)
next
  case True
  show ?thesis
  proof (cases "d_requiredby obj")
    case None
    with True assms(2) show ?thesis
      by (simp add: find_orphan_pkg_no_reqby)
  next
    case (Some reqby)
    show ?thesis
    proof (cases reqby)
      case (Prop_array refs)
      with True Some assms show ?thesis
        by (auto simp: find_orphan_pkg_array add_orphan_eq split: if_splits)
    qed (use True Some assms(1) in \<open>simp_all add: find_orphan_pkg_not_array\<close>)
  qed
qed

lemma array_iter_again:
  assumes "array_iter find_orphan_pkg xs s = (0, s')"
    and "alloc_plan t = []"
    and "orphan_list t = orphan_list s"
  shows "fst (array_iter find_orphan_pkg xs t) = 0 \<and>
    alloc_plan (snd (array_iter find_orphan_pkg xs t)) = []"
  using assms
proof (induction xs arbitrary: s t)
  case Nil
  then show ?case by simp
next
  case (Cons x xs)
  obtain rv s1 where step: "find_orphan_pkg x s = (rv, s1)"
    by (cases "find_orphan_pkg x s")
  with Cons.prems(1) have rv: "rv = 0" and rest: "array_iter find_orphan_pkg xs s1 = (0, s')"
    by (auto split: if_splits)
  obtain rv' t1 where step': "find_orphan_pkg x t = (rv', t1)"
    by (cases "find_orphan_pkg x t")
  from find_orphan_pkg_again [of x s s1 t] step rv Cons.prems(2,3) step'
  have again: "rv' = 0" "alloc_plan t1 = []"
    by simp_all
  from find_orphan_pkg_ok [of x s s1] find_orphan_pkg_ok [of x t t1] step step' rv again(1)
    Cons.prems(3)
  have "orphan_list t1 = orphan_list s1"
    by simp
  from Cons.IH [OF rest again(2) this] step' again(1) show ?case
    by simp
qed

lemma drain_loop_no_failure:
  "alloc_plan s = [] \<Longrightarrow> fst (drain_loop array s) = Some (array @ map dict (orphan_list s))"
proof (induction "orphan_list s" arbitrary: array s)
  case Nil
  then show ?case by (simp add: drain_loop_Nil)
next
  case (Cons orphan rest)
  from Cons.hyps(1) [of "s\<lparr>orphan_list := rest\<rparr>" "array @ [dict orphan]"]
    Cons.hyps(2) [symmetric] Cons.prems
  show ?case by (simp add: drain_loop_Cons)
qed

subsection \<open>Calls on a well-formed registry without allocation failure\<close>

lemma dep_orphaned_eq:
  "dep_orphaned orphans =
     (\<lambda>d. \<exists>orphan\<in>set orphans. xbps_get_pkg_name d = Some (pkgname orphan))"
  by (rule ext) (auto simp: dep_orphaned_def orphan_listed_def list_ex_iff split: option.splits)

lemma find_orphan_pkg_succeeds:
  assumes "well_formed obj" and "alloc_plan s = []"
  shows "fst (find_orphan_pkg obj s) = 0 \<and> alloc_plan (snd (find_orphan_pkg obj s)) = []"
proof (cases "d_automatic_install obj = Some True \<and> d_state obj = (0, XBPS_PKG_STATE_INSTALLED)")
  case False
  with assms show ?thesis
    by (auto simp: well_formed_def find_orphan_pkg_def xbps_get_pkg_state_dictionary_def
        split: prod.splits if_splits)
next
  case True
  show ?thesis
  proof (cases "d_requiredby obj")
    case None
    with True assms(2) show ?thesis
      by (simp add: find_orphan_pkg_no_reqby)
  next
    case (Some reqby)
    show ?thesis
    proof (cases reqby)
      case (Prop_array refs)
      with True Some assms show ?thesis
        by (auto simp: well_formed_def find_orphan_pkg_array add_orphan_eq list_ex_iff
            list_all_iff)
    qed (use True Some assms(1) in \<open>simp_all add: well_formed_def\<close>)
  qed
qed

lemma array_iter_succeeds:
  assumes "list_all well_formed xs" and "alloc_plan s = []"
  shows "fst (array_iter find_orphan_pkg xs s) = 0 \<and>
    alloc_plan (snd (array_iter find_orphan_pkg xs s)) = []"
  using assms
proof (induction xs arbitrary: s)
  case Nil
  then show ?case by simp
next
  case (Cons x xs)
  from Cons.prems have x: "well_formed x" and xs: "list_all well_formed xs"
    by simp_all
  from find_orphan_pkg_succeeds [OF x Cons.prems(2)]
  have step: "fst (find_orphan_pkg x s) = 0" "alloc_plan (snd (find_orphan_pkg x s)) = []"
    by simp_all
  from Cons.IH [OF xs step(2)] step(1) show ?case
    by (simp add: split_def)
qed

lemma xbps_find_orphan_packages_succeeds:
  assumes "regpkgdb s = Some pkgs"
    and "list_all well_formed pkgs"
    and "alloc_plan s = []"
  shows "\<exists>array s'. xbps_find_orphan_packages s = (Some array, s')"
proof -
  let ?s1 = "s\<lparr>regpkgdb_refs := regpkgdb_refs s + 1\<rparr>"
  obtain rv s2 where w: "array_iter find_orphan_pkg (rev pkgs) ?s1 = (rv, s2)"
    by (cases "array_iter find_orphan_pkg (rev pkgs) ?s1")
  from assms(2) have "list_all well_formed (rev pkgs)"
    by (simp add: list_all_iff)
  from array_iter_succeeds [OF this, of ?s1] assms(3) w
  have ok: "rv = 0" "alloc_plan s2 = []"
    by simp_all
  with xbps_find_orphan_packages_eq [OF assms(1) w]
  have "xbps_find_orphan_packages s = drain_loop [] s2"
    by simp
  moreover from ok(2) have "fst (drain_loop [] s2) = Some (map dict (orphan_list s2))"
    by (simp add: drain_loop_no_failure)
  ultimately have "xbps_find_orphan_packages s =
      (Some (map dict (orphan_list s2)), snd (drain_loop [] s2))"
    by (simp add: prod_eq_iff)
  then show ?thesis
    by blast
qed

text \<open>
  One call of \<^verbatim>\<open>find_orphan_pkg\<close> on a record with a \<^verbatim>\<open>requiredby\<close> array, without
  allocation failure: the record is appended if and only if every reference names a
  queued orphan.
\<close>

lemma find_orphan_pkg_appends_iff:
  assumes "d_automatic_install p = Some True"
    and "d_state p = (0, XBPS_PKG_STATE_INSTALLED)"
    and "d_requiredby p = Some (Prop_array refs)"
    and "list_all (\<lambda>d. xbps_get_pkg_name d \<noteq> None) refs"
    and "alloc_plan t = []"
  shows "find_orphan_pkg p t =
    (0, if length (filter (\<lambda>d. \<exists>orphan\<in>set (orphan_list t).
                              xbps_get_pkg_name d = Some (pkgname orphan)) refs) = length refs
        then t\<lparr>orphan_list := orphan_list t @ [\<lparr>dict = p, pkgname = d_pkgname p\<rparr>],
               copy_refs := copy_refs t + 1\<rparr>
        else t)"
  using assms
  by (auto simp: find_orphan_pkg_array add_orphan_eq list_ex_iff list_all_iff dep_orphaned_eq)

text \<open>
  The array that a call returns: a record with a \<^verbatim>\<open>requiredby\<close> array is in it if and
  only if every one of its references names a returned record that is registered
  after it.
\<close>

lemma returned_iff_all_dependents_orphaned:
  assumes "regpkgdb s = Some (before @ p # after)"
    and "distinct (map d_pkgname (before @ p # after))"
    and "orphan_list s = []"
    and "d_automatic_install p = Some True"
    and "d_state p = (0, XBPS_PKG_STATE_INSTALLED)"
    and "d_requiredby p = Some (Prop_array refs)"
    and "xbps_find_orphan_packages s = (Some array, s')"
  shows "p \<in> set array \<longleftrightarrow>
    length (filter (\<lambda>d. \<exists>q\<in>set array. q \<in> set after \<and>
                          xbps_get_pkg_name d = Some (d_pkgname q)) refs) = length refs"
proof -
  let ?entry = "\<lparr>dict = p, pkgname = d_pkgname p\<rparr>"
  define earlier where "earlier = orphans_walk (rev after) []"
  define queue where "queue = (if is_orphan p earlier then earlier @ [?entry] else earlier)"
  from xbps_find_orphan_packages_Some [OF assms(3,7)] assms(1)
  have "array = map dict (orphans_walk (rev (before @ p # after)) [])"
    by auto
  then have array: "array = map dict (orphans_walk (rev before) queue)"
    by (simp add: orphans_walk_append earlier_def queue_def)
  from orphans_walk_new [of "rev after" "[]"]
  have earlier: "subseq (map dict earlier) (rev after)" "list_all queued_ok earlier"
    by (auto simp: earlier_def)
  from orphans_walk_new [of "rev before" queue] obtain later
    where later: "orphans_walk (rev before) queue = queue @ later"
      "subseq (map dict later) (rev before)"
    by blast
  from earlier(1) have in_after: "set (map dict earlier) \<subseteq> set after"
    using subseq_subset by fastforce
  from later(2) have in_before: "set (map dict later) \<subseteq> set before"
    using subseq_subset by fastforce
  from assms(2) have apart: "p \<notin> set before" "p \<notin> set after" "set before \<inter> set after = {}"
    by auto
  have member: "p \<in> set array \<longleftrightarrow> is_orphan p earlier"
    using array later(1) in_after in_before apart
    by (auto simp: queue_def)
  have "set array \<inter> set after = set (map dict earlier)"
    using array later(1) in_after in_before apart
    by (auto simp: queue_def split: if_splits)
  then have "dep_orphaned earlier d \<longleftrightarrow>
      (\<exists>q\<in>set array. q \<in> set after \<and> xbps_get_pkg_name d = Some (d_pkgname q))" for d
    unfolding dep_orphaned_iff [OF earlier(2)] by blast
  then have "dep_orphaned earlier =
      (\<lambda>d. \<exists>q\<in>set array. q \<in> set after \<and> xbps_get_pkg_name d = Some (d_pkgname q))"
    by (intro ext)
  with member assms(4-6) show ?thesis
    by (simp add: is_orphan_def)
qed

section \<open>The claims\<close>

text \<open>
  In the theorems below, \<open>orphan_list s = []\<close> says that the call starts with an empty
  queue: the queue is static to the file, it is empty when the program starts, and
  every call leaves it empty (\<open>xbps_find_orphan_packages_orphan_list\<close>).
\<close>

text \<open>
  C1, as stated: a record that is automatic and installed and has no \<^verbatim>\<open>requiredby\<close>
  key is appended to the result. The code returns 0 for it at line 101 before it
  reaches \<^verbatim>\<open>add_orphan\<close>: for the registry that holds only \<open>pkg_C\<close>, which is such a
  record, the call succeeds and returns the empty array.
\<close>

theorem C1_absent_requiredby_counterexample:
  "d_automatic_install pkg_C = Some True \<and>
   d_state pkg_C = (0, XBPS_PKG_STATE_INSTALLED) \<and>
   d_requiredby pkg_C = None \<and>
   xbps_find_orphan_packages (start (Some [pkg_C]) []) = (Some [], start (Some [pkg_C]) [])"
  by (simp add: eval_C) (simp add: pkg_C_def)

text \<open>
  C1, amended: for a record that is automatic and installed and has no \<^verbatim>\<open>requiredby\<close>
  key, \<^verbatim>\<open>find_orphan_pkg\<close> returns 0 and changes nothing, and the record is not in the
  array that \<^verbatim>\<open>xbps_find_orphan_packages\<close> returns.
\<close>

theorem C1_absent_requiredby_skipped:
  assumes "d_automatic_install p = Some True"
    and "d_state p = (0, XBPS_PKG_STATE_INSTALLED)"
    and "d_requiredby p = None"
    and "orphan_list s = []"
    and "xbps_find_orphan_packages s = (Some array, s')"
  shows "find_orphan_pkg p t = (0, t) \<and> p \<notin> set array"
proof
  from assms(2,3) show "find_orphan_pkg p t = (0, t)"
    by (simp add: find_orphan_pkg_no_reqby)
next
  from xbps_find_orphan_packages_Some [OF assms(4,5)] obtain pkgs
    where array: "array = map dict (orphans_walk (rev pkgs) [])"
    by blast
  from orphans_walk_new [of "rev pkgs" "[]"] obtain new
    where "orphans_walk (rev pkgs) [] = new" and ok: "list_all queued_ok new"
    by auto
  with array have "array = map dict new"
    by simp
  with ok have "\<forall>q\<in>set array. d_requiredby q \<noteq> None"
    by (auto simp: list_all_iff queued_ok_def)
  with assms(3) show "p \<notin> set array"
    by blast
qed

theorem C1_absent_requiredby_skipped_witness:
  "find_orphan_pkg pkg_C (start None []) = (0, start None []) \<and> pkg_C \<notin> set []"
  using C1_absent_requiredby_skipped [of pkg_C "start (Some [pkg_C]) []" "[]"
      "start (Some [pkg_C]) []" "start None []"]
  by (simp add: eval_C) (simp add: pkg_C_def start_def)

text \<open>
  C2: \<open>p\<close> is a record of the registry, automatic and installed, with a \<^verbatim>\<open>requiredby\<close>
  array \<open>refs\<close>; the package names of the registry are distinct, as the spec demands,
  and the call starts with the empty queue.
  \<^item> One call of \<^verbatim>\<open>find_orphan_pkg\<close> on \<open>p\<close>, in any state \<open>t\<close> in which no allocation
    fails, when every reference has a bare name: it returns 0, and it appends the
    entry of \<open>p\<close> to the queue if the number of the references whose bare name is the
    name of a queued orphan is the number of the references, and changes nothing
    otherwise.
  \<^item> When no record of the registry is malformed and no allocation fails, the call
    returns an array, and \<open>p\<close> is in it if and only if the number of its references
    whose bare name is the name of a returned record registered after \<open>p\<close> (the
    orphans that were in the queue when \<open>p\<close> was classified) is the number of its
    references.
  \<^item> The same holds of every array that a call returns, whatever the allocations. So
    a record with a reference that names none of these orphans is not in the array.
\<close>

theorem C2_appended_iff_all_dependents_orphaned:
  assumes "regpkgdb s = Some (before @ p # after)"
    and "distinct (map d_pkgname (before @ p # after))"
    and "orphan_list s = []"
    and "d_automatic_install p = Some True"
    and "d_state p = (0, XBPS_PKG_STATE_INSTALLED)"
    and "d_requiredby p = Some (Prop_array refs)"
  shows
    "(list_all (\<lambda>d. xbps_get_pkg_name d \<noteq> None) refs \<longrightarrow> alloc_plan t = [] \<longrightarrow>
      find_orphan_pkg p t =
        (0, if length (filter (\<lambda>d. \<exists>orphan\<in>set (orphan_list t).
                                  xbps_get_pkg_name d = Some (pkgname orphan)) refs) = length refs
            then t\<lparr>orphan_list := orphan_list t @ [\<lparr>dict = p, pkgname = d_pkgname p\<rparr>],
                   copy_refs := copy_refs t + 1\<rparr>
            else t)) \<and>
     (list_all well_formed (before @ p # after) \<longrightarrow> alloc_plan s = [] \<longrightarrow>
      (\<exists>array s'. xbps_find_orphan_packages s = (Some array, s') \<and>
         (p \<in> set array \<longleftrightarrow>
          length (filter (\<lambda>d. \<exists>q\<in>set array. q \<in> set after \<and>
                                xbps_get_pkg_name d = Some (d_pkgname q)) refs) = length refs))) \<and>
     (\<forall>array s'. xbps_find_orphan_packages s = (Some array, s') \<longrightarrow>
        (p \<in> set array \<longleftrightarrow>
         length (filter (\<lambda>d. \<exists>q\<in>set array. q \<in> set after \<and>
                               xbps_get_pkg_name d = Some (d_pkgname q)) refs) = length refs))"
proof (intro conjI impI allI)
  assume "list_all (\<lambda>d. xbps_get_pkg_name d \<noteq> None) refs" and "alloc_plan t = []"
  with assms(4-6) show "find_orphan_pkg p t =
      (0, if length (filter (\<lambda>d. \<exists>orphan\<in>set (orphan_list t).
                                xbps_get_pkg_name d = Some (pkgname orphan)) refs) = length refs
          then t\<lparr>orphan_list := orphan_list t @ [\<lparr>dict = p, pkgname = d_pkgname p\<rparr>],
                 copy_refs := copy_refs t + 1\<rparr>
          else t)"
    by (rule find_orphan_pkg_appends_iff)
next
  assume "list_all well_formed (before @ p # after)" and "alloc_plan s = []"
  with assms(1) obtain array s' where ret: "xbps_find_orphan_packages s = (Some array, s')"
    using xbps_find_orphan_packages_succeeds by blast
  from returned_iff_all_dependents_orphaned [OF assms ret] ret
  show "\<exists>array s'. xbps_find_orphan_packages s = (Some array, s') \<and>
      (p \<in> set array \<longleftrightarrow>
       length (filter (\<lambda>d. \<exists>q\<in>set array. q \<in> set after \<and>
                             xbps_get_pkg_name d = Some (d_pkgname q)) refs) = length refs)"
    by blast
next
  fix array s'
  assume "xbps_find_orphan_packages s = (Some array, s')"
  with assms show "p \<in> set array \<longleftrightarrow>
      length (filter (\<lambda>d. \<exists>q\<in>set array. q \<in> set after \<and>
                            xbps_get_pkg_name d = Some (d_pkgname q)) refs) = length refs"
    by (rule returned_iff_all_dependents_orphaned)
qed

theorem C2_appended_iff_all_dependents_orphaned_witness:
  "find_orphan_pkg pkg_A ((start None [])\<lparr>orphan_list := [\<lparr>dict = pkg_B, pkgname = ''B''\<rparr>]\<rparr>) =
     (0, (start None [])\<lparr>orphan_list :=
            [\<lparr>dict = pkg_B, pkgname = ''B''\<rparr>, \<lparr>dict = pkg_A, pkgname = ''A''\<rparr>],
          copy_refs := 1\<rparr>) \<and>
   find_orphan_pkg pkg_D ((start None [])\<lparr>orphan_list := [\<lparr>dict = pkg_B, pkgname = ''B''\<rparr>]\<rparr>) =
     (0, (start None [])\<lparr>orphan_list := [\<lparr>dict = pkg_B, pkgname = ''B''\<rparr>]\<rparr>) \<and>
   fst (xbps_find_orphan_packages (start (Some [pkg_A, pkg_B]) [])) = Some [pkg_B, pkg_A] \<and>
   pkg_A \<in> set [pkg_B, pkg_A] \<and>
   fst (xbps_find_orphan_packages (start (Some [pkg_D, pkg_B]) [])) = Some [pkg_B] \<and>
   pkg_D \<notin> set [pkg_B]"
  using
    C2_appended_iff_all_dependents_orphaned [of "start (Some [pkg_A, pkg_B]) []" "[]" pkg_A
      "[pkg_B]" "[''B-2.0'']"
      "(start None [])\<lparr>orphan_list := [\<lparr>dict = pkg_B, pkgname = ''B''\<rparr>]\<rparr>"]
    C2_appended_iff_all_dependents_orphaned [of "start (Some [pkg_D, pkg_B]) []" "[]" pkg_D
      "[pkg_B]" "[''B-2.0'', ''Z-1.0'']"
      "(start None [])\<lparr>orphan_list := [\<lparr>dict = pkg_B, pkgname = ''B''\<rparr>]\<rparr>"]
  by (simp add: eval_AB eval_DB)
    (simp add: start_def pkg_A_def pkg_B_def pkg_D_def xbps_get_pkg_name_def well_formed_def)

text \<open>
  C3: the registry holds the records A and B of the scenario, registered in the order
  A, B; the call returns the array of B and A, in this order.
\<close>

theorem C3_scenario:
  "fst (xbps_find_orphan_packages (start (Some [pkg_A, pkg_B]) [])) = Some [pkg_B, pkg_A]"
  by (simp add: eval_AB)

text \<open>
  C4: every record of the array that a call returns is automatic and its state
  resolves, without error, to installed.
\<close>

theorem C4_orphans_automatic_installed:
  assumes "orphan_list s = []"
    and "xbps_find_orphan_packages s = (Some array, s')"
    and "p \<in> set array"
  shows "d_automatic_install p = Some True \<and> d_state p = (0, XBPS_PKG_STATE_INSTALLED)"
proof -
  from xbps_find_orphan_packages_Some [OF assms(1,2)] obtain pkgs
    where array: "array = map dict (orphans_walk (rev pkgs) [])"
    by blast
  from orphans_walk_new [of "rev pkgs" "[]"] obtain new
    where "orphans_walk (rev pkgs) [] = new" and ok: "list_all queued_ok new"
    by auto
  with array assms(3) obtain orphan where "orphan \<in> set new" and "p = dict orphan"
    by auto
  with ok show ?thesis
    by (auto simp: list_all_iff queued_ok_def)
qed

theorem C4_orphans_automatic_installed_witness:
  "pkg_A \<in> set [pkg_B, pkg_A] \<and>
   d_automatic_install pkg_A = Some True \<and> d_state pkg_A = (0, XBPS_PKG_STATE_INSTALLED)"
  using C4_orphans_automatic_installed [of "start (Some [pkg_A, pkg_B]) []" "[pkg_B, pkg_A]"
      "(start (Some [pkg_A, pkg_B]) [])\<lparr>copy_refs := 2\<rparr>" pkg_A]
  by (simp add: eval_AB) (simp add: start_def)

text \<open>
  C5, as stated: a record whose \<^verbatim>\<open>requiredby\<close> object is present and is not an array
  makes the whole call fail with \<^verbatim>\<open>EINVAL\<close>. The code reads \<^verbatim>\<open>requiredby\<close> only for
  a record that is automatic and installed, and the walk stops at the first error.
  \<open>pkg_E\<close> is not automatic and its \<^verbatim>\<open>requiredby\<close> is a string: the call on the
  registry that holds only \<open>pkg_E\<close> succeeds. \<open>pkg_F\<close> is automatic and installed and its
  \<^verbatim>\<open>requiredby\<close> is a string: the call on the registry of \<open>pkg_F\<close> and \<open>pkg_H\<close> fails
  with the error 2 of \<open>pkg_H\<close>, which the reverse walk visits first.
\<close>

theorem C5_not_array_counterexample:
  "d_requiredby pkg_E = Some (Prop_string ''B-2.0'') \<and>
   prop_object_type (Prop_string ''B-2.0'') \<noteq> PROP_TYPE_ARRAY \<and>
   xbps_find_orphan_packages (start (Some [pkg_E]) []) = (Some [], start (Some [pkg_E]) []) \<and>
   d_automatic_install pkg_F = Some True \<and>
   d_state pkg_F = (0, XBPS_PKG_STATE_INSTALLED) \<and>
   d_requiredby pkg_F = Some (Prop_string ''B-2.0'') \<and>
   xbps_find_orphan_packages (start (Some [pkg_F, pkg_H]) []) =
     (None, (start (Some [pkg_F, pkg_H]) [])\<lparr>errno := 2\<rparr>) \<and>
   EINVAL \<noteq> 2"
  by (simp add: eval_E eval_FH) (simp add: pkg_E_def pkg_F_def EINVAL_def)

text \<open>
  C5, amended: if a record of the registry is automatic and installed and its
  \<^verbatim>\<open>requiredby\<close> object is present and is not an array, the call fails: it returns
  \<^verbatim>\<open>NULL\<close> and the queue is empty again. \<^verbatim>\<open>errno\<close> is \<^verbatim>\<open>EINVAL\<close> when the walk
  reaches the record, that is when the records registered after it are classified
  without error.
\<close>

theorem C5_not_array_fails:
  assumes "regpkgdb s = Some (before @ p # after)"
    and "d_automatic_install p = Some True"
    and "d_state p = (0, XBPS_PKG_STATE_INSTALLED)"
    and "d_requiredby p = Some reqby"
    and "prop_object_type reqby \<noteq> PROP_TYPE_ARRAY"
  shows "fst (xbps_find_orphan_packages s) = None \<and>
    orphan_list (snd (xbps_find_orphan_packages s)) = [] \<and>
    (fst (xbps_callback_array_iter_reverse_in_dict after find_orphan_pkg
            (snd (xbps_regpkgdb_dictionary_get s))) = 0 \<longrightarrow>
     errno (snd (xbps_find_orphan_packages s)) = EINVAL)"
proof -
  have fails: "find_orphan_pkg p t = (EINVAL, t)" for t
    using assms(2-5) by (rule find_orphan_pkg_not_array)
  have "p \<in> set (before @ p # after)"
    by simp
  from xbps_find_orphan_packages_fails_for [OF assms(1) this]
  have "fst (xbps_find_orphan_packages s) = None \<and>
      orphan_list (snd (xbps_find_orphan_packages s)) = []"
    by (simp add: fails)
  moreover have "errno (snd (xbps_find_orphan_packages s)) = EINVAL"
    if "fst (xbps_callback_array_iter_reverse_in_dict after find_orphan_pkg
              (snd (xbps_regpkgdb_dictionary_get s))) = 0"
  proof -
    from that obtain s2
      where "xbps_callback_array_iter_reverse_in_dict after find_orphan_pkg
               (snd (xbps_regpkgdb_dictionary_get s)) = (0, s2)"
      by (metis prod.collapse)
    from xbps_find_orphan_packages_fails_at [OF assms(1) this fails] show ?thesis
      by simp
  qed
  ultimately show ?thesis
    by blast
qed

theorem C5_not_array_fails_witness:
  "fst (xbps_find_orphan_packages (start (Some [pkg_F, pkg_B]) [])) = None \<and>
   orphan_list (snd (xbps_find_orphan_packages (start (Some [pkg_F, pkg_B]) []))) = [] \<and>
   errno (snd (xbps_find_orphan_packages (start (Some [pkg_F, pkg_B]) []))) = EINVAL"
  using C5_not_array_fails [of "start (Some [pkg_F, pkg_B]) []" "[]" pkg_F "[pkg_B]"
      "Prop_string ''B-2.0''"]
  by (simp add: eval_walk_B) (simp add: start_def pkg_F_def)

text \<open>
  C6: \<^verbatim>\<open>xbps_get_pkg_name\<close> is called on the references of a record that is automatic
  and installed and whose \<^verbatim>\<open>requiredby\<close> object is an array. If the extraction fails
  for one of the references \<open>d\<close> of such a record of the registry, the call fails: it
  returns \<^verbatim>\<open>NULL\<close> and the queue is empty again. \<^verbatim>\<open>errno\<close> is \<^verbatim>\<open>EINVAL\<close> when the
  extraction takes place: the walk reaches the record (the records registered after
  it are classified without error) and the iterator over the array is obtained.
\<close>

theorem C6_name_extraction_fails:
  assumes "regpkgdb s = Some (before @ p # after)"
    and "d_automatic_install p = Some True"
    and "d_state p = (0, XBPS_PKG_STATE_INSTALLED)"
    and "d_requiredby p = Some (Prop_array refs)"
    and "d \<in> set refs"
    and "xbps_get_pkg_name d = None"
  shows "fst (xbps_find_orphan_packages s) = None \<and>
    orphan_list (snd (xbps_find_orphan_packages s)) = [] \<and>
    (fst (xbps_callback_array_iter_reverse_in_dict after find_orphan_pkg
            (snd (xbps_regpkgdb_dictionary_get s))) = 0 \<longrightarrow>
     fst (prop_array_iterator (Prop_array refs)
            (snd (xbps_callback_array_iter_reverse_in_dict after find_orphan_pkg
                    (snd (xbps_regpkgdb_dictionary_get s))))) \<noteq> None \<longrightarrow>
     errno (snd (xbps_find_orphan_packages s)) = EINVAL)"
proof -
  from assms(5,6) have refs: "list_ex (\<lambda>d. xbps_get_pkg_name d = None) refs" "refs \<noteq> []"
    by (auto simp: list_ex_iff)
  with assms(2-4) have step: "find_orphan_pkg p t =
      (if fst (allocate t) then (EINVAL, snd (allocate t)) else (ENOMEM, snd (allocate t)))" for t
    by (simp add: find_orphan_pkg_array)
  then have fails: "fst (find_orphan_pkg p t) \<noteq> 0" for t
    by simp
  have "p \<in> set (before @ p # after)"
    by simp
  from xbps_find_orphan_packages_fails_for [OF assms(1) this fails]
  have "fst (xbps_find_orphan_packages s) = None \<and>
      orphan_list (snd (xbps_find_orphan_packages s)) = []" .
  moreover have "errno (snd (xbps_find_orphan_packages s)) = EINVAL"
    if reached: "fst (xbps_callback_array_iter_reverse_in_dict after find_orphan_pkg
              (snd (xbps_regpkgdb_dictionary_get s))) = 0"
      and iter: "fst (prop_array_iterator (Prop_array refs)
            (snd (xbps_callback_array_iter_reverse_in_dict after find_orphan_pkg
                    (snd (xbps_regpkgdb_dictionary_get s))))) \<noteq> None"
  proof -
    from reached obtain s2
      where s2: "xbps_callback_array_iter_reverse_in_dict after find_orphan_pkg
               (snd (xbps_regpkgdb_dictionary_get s)) = (0, s2)"
      by (metis prod.collapse)
    with iter have "fst (allocate s2)"
      by (simp add: prop_array_iterator_eq split: if_splits)
    with step have "find_orphan_pkg p s2 = (EINVAL, snd (allocate s2))"
      by simp
    from xbps_find_orphan_packages_fails_at [OF assms(1) s2 this] show ?thesis
      by simp
  qed
  ultimately show ?thesis
    by blast
qed

theorem C6_name_extraction_fails_witness:
  "fst (xbps_find_orphan_packages (start (Some [pkg_G, pkg_B]) [])) = None \<and>
   orphan_list (snd (xbps_find_orphan_packages (start (Some [pkg_G, pkg_B]) []))) = [] \<and>
   errno (snd (xbps_find_orphan_packages (start (Some [pkg_G, pkg_B]) []))) = EINVAL"
  using C6_name_extraction_fails [of "start (Some [pkg_G, pkg_B]) []" "[]" pkg_G "[pkg_B]"
      "[''B-2.0'', ''noversion'']" "''noversion''"]
  by (simp add: eval_walk_B)
    (simp add: start_def pkg_G_def prop_array_iterator_def allocate_def xbps_get_pkg_name_def)

text \<open>
  C7: on every failure path the call releases the entries accumulated so far and the
  database, and returns no partial result. The code does not do so where
  \<^verbatim>\<open>prop_array_add\<close> fails in the final loop after an entry has been moved into the
  array: for the registry of the scenario, with the sixth allocation request failing
  (the second \<^verbatim>\<open>prop_array_add\<close>), the call returns \<^verbatim>\<open>NULL\<close>, the queue is empty and
  the database is released, but one reference is left on the copy of B: \<^verbatim>\<open>cleanup\<close>
  releases what is still in the queue, and the array that holds the copy of B is
  never released.
\<close>

theorem C7_array_add_failure_leaks:
  "xbps_find_orphan_packages
     (start (Some [pkg_A, pkg_B]) [True, True, True, True, True, False]) =
   (None, (start (Some [pkg_A, pkg_B]) [])\<lparr>errno := ENOMEM, copy_refs := 1\<rparr>)"
  by (rule eval_AB_add_fails)

text \<open>
  C8: the array that a call returns is a subsequence of the registry read backwards:
  every record of the registry is visited once, in this order, and appended at most
  once. So a registry without repeated records, or without repeated package names,
  gives an array without repeated records, or names.
\<close>

theorem C8_appended_at_most_once:
  assumes "orphan_list s = []"
    and "regpkgdb s = Some pkgs"
    and "xbps_find_orphan_packages s = (Some array, s')"
  shows "subseq array (rev pkgs) \<and>
    (distinct pkgs \<longrightarrow> distinct array) \<and>
    (distinct (map d_pkgname pkgs) \<longrightarrow> distinct (map d_pkgname array))"
proof -
  from xbps_find_orphan_packages_Some [OF assms(1,3)] assms(2)
  have array: "array = map dict (orphans_walk (rev pkgs) [])"
    by auto
  from orphans_walk_new [of "rev pkgs" "[]"] array
  have sub: "subseq array (rev pkgs)"
    by auto
  then have "subseq (map d_pkgname array) (map d_pkgname (rev pkgs))"
    by (rule subseq_map)
  then have names: "distinct (map d_pkgname pkgs) \<longrightarrow> distinct (map d_pkgname array)"
    using subseq_distinct [of "map d_pkgname array" "map d_pkgname (rev pkgs)"]
    by (simp add: rev_map [symmetric])
  from sub have "distinct pkgs \<longrightarrow> distinct array"
    using subseq_distinct [of array "rev pkgs"] by simp
  with sub names show ?thesis
    by simp
qed

theorem C8_appended_at_most_once_witness:
  "subseq [pkg_B, pkg_A] (rev [pkg_A, pkg_B]) \<and> distinct [pkg_B, pkg_A] \<and>
   distinct (map d_pkgname [pkg_B, pkg_A])"
  using C8_appended_at_most_once [of "start (Some [pkg_A, pkg_B]) []" "[pkg_A, pkg_B]"
      "[pkg_B, pkg_A]" "(start (Some [pkg_A, pkg_B]) [])\<lparr>copy_refs := 2\<rparr>"]
  by (simp add: eval_AB) (simp add: start_def pkg_A_def pkg_B_def)

text \<open>
  C9: a call that starts with the empty queue leaves the queue empty, whatever it
  returns. A second call, which starts with the queue that the first call left and
  with the same registry (memory and \<^verbatim>\<open>errno\<close> may have changed), leaves it empty as
  well. When both calls return an array, it is the same array; and when the first
  call returns an array and no allocation fails in the second, the second call
  returns that array.
\<close>

theorem C9_second_call_same_result:
  assumes "orphan_list s = []"
    and "xbps_find_orphan_packages s = (r1, s1)"
    and "orphan_list t = orphan_list s1"
    and "regpkgdb t = regpkgdb s1"
    and "xbps_find_orphan_packages t = (r2, s2)"
  shows "orphan_list s1 = [] \<and> orphan_list s2 = [] \<and>
    (r1 \<noteq> None \<longrightarrow> r2 \<noteq> None \<longrightarrow> r2 = r1) \<and>
    (r1 \<noteq> None \<longrightarrow> alloc_plan t = [] \<longrightarrow> r2 = r1)"
proof -
  from assms(1,2) have s1: "orphan_list s1 = []"
    using xbps_find_orphan_packages_orphan_list [of s] by simp
  with assms(3,5) have s2: "orphan_list s2 = []" and t: "orphan_list t = []"
    using xbps_find_orphan_packages_orphan_list [of t] by simp_all
  from assms(2,4) have db: "regpkgdb t = regpkgdb s"
    using xbps_find_orphan_packages_regpkgdb [of s] by simp
  have both: "r2 = r1" if "r1 \<noteq> None" "r2 \<noteq> None"
  proof -
    from that obtain a1 a2 where "r1 = Some a1" "r2 = Some a2"
      by auto
    with xbps_find_orphan_packages_Some [OF assms(1), of a1 s1]
      xbps_find_orphan_packages_Some [OF t, of a2 s2] assms(2,5) db
    show ?thesis by auto
  qed
  have "r2 \<noteq> None" if r1: "r1 \<noteq> None" and plan: "alloc_plan t = []"
  proof -
    from r1 assms(2) obtain pkgs where pkgs: "regpkgdb s = Some pkgs"
      by (cases "regpkgdb s") (simp_all add: xbps_find_orphan_packages_unavailable)
    let ?s = "s\<lparr>regpkgdb_refs := regpkgdb_refs s + 1\<rparr>"
    let ?t = "t\<lparr>regpkgdb_refs := regpkgdb_refs t + 1\<rparr>"
    obtain rv w where w: "array_iter find_orphan_pkg (rev pkgs) ?s = (rv, w)"
      by (cases "array_iter find_orphan_pkg (rev pkgs) ?s")
    from xbps_find_orphan_packages_eq [OF pkgs w] assms(2) r1 have "rv = 0"
      by (auto split: if_splits)
    with w have ok: "array_iter find_orphan_pkg (rev pkgs) ?s = (0, w)"
      by simp
    obtain rv' w' where w': "array_iter find_orphan_pkg (rev pkgs) ?t = (rv', w')"
      by (cases "array_iter find_orphan_pkg (rev pkgs) ?t")
    from array_iter_again [OF ok, of ?t] plan t assms(1) w'
    have "rv' = 0" "alloc_plan w' = []"
      by simp_all
    with xbps_find_orphan_packages_eq [of t pkgs rv' w'] w' db pkgs
    have "xbps_find_orphan_packages t = drain_loop [] w'"
      by simp
    with assms(5) have "r2 = fst (drain_loop [] w')"
      by (metis fst_conv)
    with \<open>alloc_plan w' = []\<close> show ?thesis
      by (simp add: drain_loop_no_failure)
  qed
  with both s1 s2 show ?thesis
    by blast
qed

theorem C9_second_call_same_result_witness:
  "orphan_list (snd (xbps_find_orphan_packages (start (Some [pkg_A, pkg_B]) []))) = [] \<and>
   fst (xbps_find_orphan_packages
          (snd (xbps_find_orphan_packages (start (Some [pkg_A, pkg_B]) [])))) =
   fst (xbps_find_orphan_packages (start (Some [pkg_A, pkg_B]) []))"
proof -
  let ?s = "start (Some [pkg_A, pkg_B]) []"
  have empty: "orphan_list ?s = []"
    by (simp add: start_def)
  have first: "xbps_find_orphan_packages ?s = (Some [pkg_B, pkg_A], ?s\<lparr>copy_refs := 2\<rparr>)"
    by (rule eval_AB)
  have second: "xbps_find_orphan_packages (?s\<lparr>copy_refs := 2\<rparr>) =
      (Some [pkg_B, pkg_A], ?s\<lparr>copy_refs := 4\<rparr>)"
    by (rule eval_AB_again)
  from C9_second_call_same_result [OF empty first refl refl second]
  show ?thesis
    by (simp add: first second)
qed

text \<open>
  C10: if \<^verbatim>\<open>xbps_get_pkg_state_dictionary\<close> returns an error \<open>rv\<close> for an automatic
  record of the registry, the record is not skipped: the call fails, it returns
  \<^verbatim>\<open>NULL\<close> and the queue is empty again. \<^verbatim>\<open>errno\<close> is \<open>rv\<close> when the state is resolved:
  the walk reaches the record (the records registered after it are classified without
  error).
\<close>

theorem C10_state_error_fails:
  assumes "regpkgdb s = Some (before @ p # after)"
    and "d_automatic_install p = Some True"
    and "xbps_get_pkg_state_dictionary p = (rv, state)"
    and "rv \<noteq> 0"
  shows "fst (xbps_find_orphan_packages s) = None \<and>
    orphan_list (snd (xbps_find_orphan_packages s)) = [] \<and>
    (fst (xbps_callback_array_iter_reverse_in_dict after find_orphan_pkg
            (snd (xbps_regpkgdb_dictionary_get s))) = 0 \<longrightarrow>
     errno (snd (xbps_find_orphan_packages s)) = rv)"
proof -
  have fails: "find_orphan_pkg p t = (rv, t)" for t
    using assms(2-4) find_orphan_pkg_state_error [of p t]
    by (simp add: xbps_get_pkg_state_dictionary_def)
  have "p \<in> set (before @ p # after)"
    by simp
  from xbps_find_orphan_packages_fails_for [OF assms(1) this]
  have "fst (xbps_find_orphan_packages s) = None \<and>
      orphan_list (snd (xbps_find_orphan_packages s)) = []"
    by (simp add: fails assms(4))
  moreover have "errno (snd (xbps_find_orphan_packages s)) = rv"
    if "fst (xbps_callback_array_iter_reverse_in_dict after find_orphan_pkg
              (snd (xbps_regpkgdb_dictionary_get s))) = 0"
  proof -
    from that obtain s2
      where "xbps_callback_array_iter_reverse_in_dict after find_orphan_pkg
               (snd (xbps_regpkgdb_dictionary_get s)) = (0, s2)"
      by (metis prod.collapse)
    from xbps_find_orphan_packages_fails_at [OF assms(1) this fails assms(4)] show ?thesis
      by simp
  qed
  ultimately show ?thesis
    by blast
qed

theorem C10_state_error_fails_witness:
  "fst (xbps_find_orphan_packages (start (Some [pkg_H, pkg_B]) [])) = None \<and>
   orphan_list (snd (xbps_find_orphan_packages (start (Some [pkg_H, pkg_B]) []))) = [] \<and>
   errno (snd (xbps_find_orphan_packages (start (Some [pkg_H, pkg_B]) []))) = 2"
  using C10_state_error_fails [of "start (Some [pkg_H, pkg_B]) []" "[]" pkg_H "[pkg_B]"
      2 "Pkg_state_other 0"]
  by (simp add: eval_walk_B)
    (simp add: start_def pkg_H_def xbps_get_pkg_state_dictionary_def)

end
